theory Spec2Isabelle
  imports Main "HOL-Library.Log_Nat"
begin

section \<open>Sensor calibration tool: the program\<close>

text \<open>
  The program of \<^verbatim>\<open>src/main.cpp\<close> is a menu loop around one global record,
  \<^verbatim>\<open>current_calibration\<close>. Everything it computes is \<^verbatim>\<open>double\<close> arithmetic and
  everything it reads or writes goes through the C++ stream library. Neither is defined by
  the program, so both are parameters of the model:
  \<^item> \<open>'d\<close> is the type of \<^verbatim>\<open>double\<close> values, with the operations the program uses
    collected in a record \<open>'d fp_ops\<close>;
  \<^item> \<open>'s\<close> is the type of input stream states (of \<^verbatim>\<open>cin\<close> and of an opened
    \<^verbatim>\<open>ifstream\<close>) and \<open>'f\<close> the type of file system states, with the stream operations
    the program calls collected in a record \<open>('s, 'f, 'd) stream_lib\<close>.
  Every theorem about the program holds for all such operations. Two instances of the
  arithmetic (exact rationals, and rationals rounded to 53 significant bits) and one of the
  stream library (a scripted console) are defined further down, to evaluate the program on
  concrete inputs.

  Memory is unbounded in the model: the two \<^verbatim>\<open>vector<double>\<close> of
  \<^verbatim>\<open>enter_calibration_data\<close> are always allocated. \<^verbatim>\<open>int\<close> values are modelled by
  \<open>int\<close>: the only arithmetic on them is the loop counter \<^verbatim>\<open>i + 1\<close> with
  \<^verbatim>\<open>i < num_points\<close>, which cannot overflow.
\<close>

subsection \<open>Data\<close>

record 'd Calibration =
  slope :: 'd
  offset :: 'd
  is_valid :: bool

record 'd fp_ops =
  d_zero :: 'd                        \<comment> \<open>the literal \<^verbatim>\<open>0.0\<close>\<close>
  d_eps :: 'd                         \<comment> \<open>the literal \<^verbatim>\<open>1e-10\<close>\<close>
  d_of_int :: "int \<Rightarrow> 'd"              \<comment> \<open>\<^verbatim>\<open>static_cast<double>\<close>\<close>
  d_add :: "'d \<Rightarrow> 'd \<Rightarrow> 'd"
  d_sub :: "'d \<Rightarrow> 'd \<Rightarrow> 'd"
  d_mul :: "'d \<Rightarrow> 'd \<Rightarrow> 'd"
  d_div :: "'d \<Rightarrow> 'd \<Rightarrow> 'd"
  d_abs :: "'d \<Rightarrow> 'd"                   \<comment> \<open>\<^verbatim>\<open>fabs\<close>\<close>
  d_less :: "'d \<Rightarrow> 'd \<Rightarrow> bool"          \<comment> \<open>\<^verbatim>\<open><\<close> on \<^verbatim>\<open>double\<close>\<close>

record ('s, 'f, 'd) stream_lib =
  extract_int :: "'s \<Rightarrow> int option \<times> 's"       \<comment> \<open>\<^verbatim>\<open>stream >> int\<close>; \<open>None\<close> when it fails\<close>
  extract_double :: "'s \<Rightarrow> 'd option \<times> 's"     \<comment> \<open>\<^verbatim>\<open>stream >> double\<close>\<close>
  extract_char :: "'s \<Rightarrow> char option \<times> 's"     \<comment> \<open>\<^verbatim>\<open>stream >> char\<close>\<close>
  clear_ignore :: "'s \<Rightarrow> 's"                   \<comment> \<open>\<^verbatim>\<open>clear()\<close> then \<^verbatim>\<open>ignore(max, '\n')\<close>\<close>
  get_char :: "'s \<Rightarrow> 's"                       \<comment> \<open>\<^verbatim>\<open>get()\<close>, its result dropped\<close>
  get_line :: "'s \<Rightarrow> string \<times> 's"              \<comment> \<open>\<^verbatim>\<open>getline(stream, str)\<close>\<close>
  open_ifstream :: "'f \<Rightarrow> string \<Rightarrow> 's option"  \<comment> \<open>\<^verbatim>\<open>ifstream\<close>, \<open>None\<close> when not \<^verbatim>\<open>is_open()\<close>\<close>
  open_ofstream :: "'f \<Rightarrow> string \<Rightarrow> 'f option"  \<comment> \<open>\<^verbatim>\<open>ofstream\<close>: the file created or emptied\<close>
  write_text :: "'f \<Rightarrow> string \<Rightarrow> string \<Rightarrow> 'f"  \<comment> \<open>append a text to the named open file\<close>
  fixed10 :: "'d \<Rightarrow> string"                    \<comment> \<open>\<^verbatim>\<open>fixed << setprecision(10)\<close>\<close>
  indeterminate :: char                        \<comment> \<open>the content of an uninitialised \<^verbatim>\<open>char\<close>\<close>

text \<open>
  What the program prints on \<^verbatim>\<open>cout\<close>, one constructor for each message of the source.
  Numbers are kept as values, not as digits.
\<close>

datatype 'd message =
    Banner
  | MainMenu
  | InvalidInput                \<comment> \<open>\<^verbatim>\<open>Invalid input. Enter a number between 1 and 5.\<close>\<close>
  | InvalidOption               \<comment> \<open>\<^verbatim>\<open>Invalid option. Choose between 1 and 5.\<close>\<close>
  | Goodbye
  | PressEnter
  | EnterDataHeader
  | AskNumPoints
  | InvalidNumPoints            \<comment> \<open>\<^verbatim>\<open>Invalid input. Enter an integer >= 2.\<close>\<close>
  | PointLabel int
  | AskReference
  | AskRaw
  | InvalidNumber               \<comment> \<open>\<^verbatim>\<open>Invalid input. Enter a number.\<close>\<close>
  | ErrorIdentical              \<comment> \<open>\<^verbatim>\<open>Error: All raw readings are identical. ...\<close>\<close>
  | CalibrationResults 'd 'd
  | LoadHeader
  | ErrorCannotOpen string
  | ErrorReadSlope
  | ErrorReadOffset
  | LoadedCalibration 'd 'd string
  | ConvertHeader
  | NoCalibrationLoaded
  | CurrentCalibrationIs 'd 'd
  | AskReading
  | ConversionResult 'd 'd      \<comment> \<open>raw reading, real value\<close>
  | AskAnother
  | SaveHeader
  | NoCalibrationToSave
  | AskSaveName
  | ErrorCannotCreate string
  | SavedCalibration string 'd 'd

record ('s, 'f, 'd) world =
  cin :: 's
  cout :: "'d message list"
  disk :: 'f
  current_calibration :: "'d Calibration"

datatype 'w step = Continue 'w | Return int 'w

subsection \<open>Helpers\<close>

definition print :: "'d message \<Rightarrow> ('s, 'f, 'd) world \<Rightarrow> ('s, 'f, 'd) world" where
  "print m w = w\<lparr>cout := cout w @ [m]\<rparr>"

definition cin_int ::
  "('s, 'f, 'd) stream_lib \<Rightarrow> ('s, 'f, 'd) world \<Rightarrow> int option \<times> ('s, 'f, 'd) world" where
  "cin_int lib w = (case extract_int lib (cin w) of (r, s) \<Rightarrow> (r, w\<lparr>cin := s\<rparr>))"

definition cin_double ::
  "('s, 'f, 'd) stream_lib \<Rightarrow> ('s, 'f, 'd) world \<Rightarrow> 'd option \<times> ('s, 'f, 'd) world" where
  "cin_double lib w = (case extract_double lib (cin w) of (r, s) \<Rightarrow> (r, w\<lparr>cin := s\<rparr>))"

definition cin_char ::
  "('s, 'f, 'd) stream_lib \<Rightarrow> ('s, 'f, 'd) world \<Rightarrow> char option \<times> ('s, 'f, 'd) world" where
  "cin_char lib w = (case extract_char lib (cin w) of (r, s) \<Rightarrow> (r, w\<lparr>cin := s\<rparr>))"

definition cin_getline ::
  "('s, 'f, 'd) stream_lib \<Rightarrow> ('s, 'f, 'd) world \<Rightarrow> string \<times> ('s, 'f, 'd) world" where
  "cin_getline lib w = (case get_line lib (cin w) of (str, s) \<Rightarrow> (str, w\<lparr>cin := s\<rparr>))"

definition clear_input_buffer ::
  "('s, 'f, 'd) stream_lib \<Rightarrow> ('s, 'f, 'd) world \<Rightarrow> ('s, 'f, 'd) world" where
  "clear_input_buffer lib w = w\<lparr>cin := clear_ignore lib (cin w)\<rparr>"

definition pause_screen ::
  "('s, 'f, 'd) stream_lib \<Rightarrow> ('s, 'f, 'd) world \<Rightarrow> ('s, 'f, 'd) world" where
  "pause_screen lib w = (let w1 = print PressEnter w in w1\<lparr>cin := get_char lib (cin w1)\<rparr>)"

definition display_menu :: "('s, 'f, 'd) world \<Rightarrow> ('s, 'f, 'd) world" where
  "display_menu w = print MainMenu w"

subsection \<open>Option 1: enter calibration data\<close>

text \<open>
  The three prompt loops. Each repeats until the extraction succeeds, so on an input that
  never offers a valid value (an exhausted \<^verbatim>\<open>cin\<close>, for one) it does not return: the
  result \<open>None\<close>.
\<close>

partial_function (option) read_num_points ::
  "('s, 'f, 'd) stream_lib \<Rightarrow> ('s, 'f, 'd) world \<Rightarrow> (int \<times> ('s, 'f, 'd) world) option" where
  "read_num_points lib w =
     (case cin_int lib (print AskNumPoints w) of
        (Some num_points, w1) \<Rightarrow>
          if 2 \<le> num_points then Some (num_points, w1)
          else read_num_points lib (clear_input_buffer lib (print InvalidNumPoints w1))
      | (None, w1) \<Rightarrow>
          read_num_points lib (clear_input_buffer lib (print InvalidNumPoints w1)))"

partial_function (option) read_double ::
  "('s, 'f, 'd) stream_lib \<Rightarrow> 'd message \<Rightarrow> ('s, 'f, 'd) world \<Rightarrow>
   ('d \<times> ('s, 'f, 'd) world) option" where
  "read_double lib prompt w =
     (case cin_double lib (print prompt w) of
        (Some v, w1) \<Rightarrow> Some (v, w1)
      | (None, w1) \<Rightarrow> read_double lib prompt (clear_input_buffer lib (print InvalidNumber w1)))"

text \<open>The loop \<^verbatim>\<open>for (int i = 0; i < num_points; i++)\<close> that fills the two vectors.\<close>

partial_function (option) collect_points ::
  "('s, 'f, 'd) stream_lib \<Rightarrow> int \<Rightarrow> int \<Rightarrow> 'd list \<Rightarrow> 'd list \<Rightarrow> ('s, 'f, 'd) world \<Rightarrow>
   ('d list \<times> 'd list \<times> ('s, 'f, 'd) world) option" where
  "collect_points lib num_points i reference_values raw_readings w =
     (if i < num_points then
        (case read_double lib AskReference (print (PointLabel (i + 1)) w) of
           None \<Rightarrow> None
         | Some (y, w1) \<Rightarrow>
            (case read_double lib AskRaw w1 of
               None \<Rightarrow> None
             | Some (x, w2) \<Rightarrow>
                 collect_points lib num_points (i + 1)
                   (reference_values[nat i := y]) (raw_readings[nat i := x])
                   (clear_input_buffer lib w2)))
      else Some (reference_values, raw_readings, w))"

text \<open>The summation loop, lines 174 to 182: the four running sums are the accumulator.\<close>

function sum_loop ::
  "'d fp_ops \<Rightarrow> int \<Rightarrow> 'd list \<Rightarrow> 'd list \<Rightarrow> int \<Rightarrow> 'd \<times> 'd \<times> 'd \<times> 'd \<Rightarrow> 'd \<times> 'd \<times> 'd \<times> 'd"
  where
  "sum_loop fp num_points raw_readings reference_values i (sum_x, sum_y, sum_xy, sum_x2) =
     (if i < num_points then
        (let x = raw_readings ! nat i; y = reference_values ! nat i
         in sum_loop fp num_points raw_readings reference_values (i + 1)
              (d_add fp sum_x x, d_add fp sum_y y,
               d_add fp sum_xy (d_mul fp x y), d_add fp sum_x2 (d_mul fp x x)))
      else (sum_x, sum_y, sum_xy, sum_x2))"
  by pat_completeness auto
termination
  by (relation "measure (\<lambda>(fp, num_points, xs, ys, i, acc). nat (num_points - i))") auto

declare sum_loop.simps [simp del]

text \<open>Lines 169 to 213: the regression on the collected points and the update of the store.\<close>

definition fit_line ::
  "'d fp_ops \<Rightarrow> ('s, 'f, 'd) stream_lib \<Rightarrow> int \<Rightarrow> 'd list \<Rightarrow> 'd list \<Rightarrow>
   ('s, 'f, 'd) world \<Rightarrow> ('s, 'f, 'd) world" where
  "fit_line fp lib num_points reference_values raw_readings w =
     (case sum_loop fp num_points raw_readings reference_values 0
             (d_zero fp, d_zero fp, d_zero fp, d_zero fp) of
        (sum_x, sum_y, sum_xy, sum_x2) \<Rightarrow>
          (let n = d_of_int fp num_points;
               numerator = d_sub fp (d_mul fp n sum_xy) (d_mul fp sum_x sum_y);
               denominator = d_sub fp (d_mul fp n sum_x2) (d_mul fp sum_x sum_x)
           in if d_less fp (d_abs fp denominator) (d_eps fp)
              then pause_screen lib (print ErrorIdentical w)
              else
                (let slope_v = d_div fp numerator denominator;
                     offset_v = d_div fp (d_sub fp sum_y (d_mul fp slope_v sum_x)) n;
                     w1 = w\<lparr>current_calibration :=
                            (current_calibration w)
                              \<lparr>slope := slope_v, offset := offset_v, is_valid := True\<rparr>\<rparr>
                 in pause_screen lib (print (CalibrationResults slope_v offset_v) w1))))"

text \<open>The input phase of \<^verbatim>\<open>enter_calibration_data\<close>, lines 106 to 154.\<close>

definition read_points ::
  "'d fp_ops \<Rightarrow> ('s, 'f, 'd) stream_lib \<Rightarrow> ('s, 'f, 'd) world \<Rightarrow>
   (int \<times> 'd list \<times> 'd list \<times> ('s, 'f, 'd) world) option" where
  "read_points fp lib w =
     (case read_num_points lib (print EnterDataHeader w) of
        None \<Rightarrow> None
      | Some (num_points, w1) \<Rightarrow>
         (case collect_points lib num_points 0
                 (replicate (nat num_points) (d_zero fp))
                 (replicate (nat num_points) (d_zero fp))
                 (clear_input_buffer lib w1) of
            None \<Rightarrow> None
          | Some (reference_values, raw_readings, w2) \<Rightarrow>
              Some (num_points, reference_values, raw_readings, w2)))"

definition enter_calibration_data ::
  "'d fp_ops \<Rightarrow> ('s, 'f, 'd) stream_lib \<Rightarrow> ('s, 'f, 'd) world \<Rightarrow> ('s, 'f, 'd) world option"
  where
  "enter_calibration_data fp lib w =
     (case read_points fp lib w of
        None \<Rightarrow> None
      | Some (num_points, reference_values, raw_readings, w1) \<Rightarrow>
          Some (fit_line fp lib num_points reference_values raw_readings w1))"

subsection \<open>Option 2: load a calibration from a file\<close>

definition load_calibration_from_file ::
  "('s, 'f, 'd) stream_lib \<Rightarrow> ('s, 'f, 'd) world \<Rightarrow> ('s, 'f, 'd) world" where
  "load_calibration_from_file lib w =
     (case cin_getline lib (print LoadHeader w) of
        (filename, w1) \<Rightarrow>
          (case open_ifstream lib (disk w1) filename of
             None \<Rightarrow> pause_screen lib (print (ErrorCannotOpen filename) w1)
           | Some file \<Rightarrow>
              (case extract_double lib file of
                 (None, file1) \<Rightarrow> pause_screen lib (print ErrorReadSlope w1)
               | (Some slope_v, file1) \<Rightarrow>
                  (case extract_double lib file1 of
                     (None, file2) \<Rightarrow> pause_screen lib (print ErrorReadOffset w1)
                   | (Some offset_v, file2) \<Rightarrow>
                       (let w2 = w1\<lparr>current_calibration :=
                                     (current_calibration w1)
                                       \<lparr>slope := slope_v, offset := offset_v,
                                        is_valid := True\<rparr>\<rparr>
                        in pause_screen lib
                             (print (LoadedCalibration slope_v offset_v filename) w2))))))"

subsection \<open>Option 3: convert raw readings\<close>

text \<open>Line 308.\<close>

definition real_value :: "'d fp_ops \<Rightarrow> 'd Calibration \<Rightarrow> 'd \<Rightarrow> 'd" where
  "real_value fp c raw_reading = d_add fp (d_mul fp (slope c) raw_reading) (offset c)"

text \<open>
  The \<^verbatim>\<open>do ... while\<close> loop. \<^verbatim>\<open>continue_choice\<close> keeps its old content when the
  extraction of the answer fails, so it is an argument of the loop.
\<close>

partial_function (option) convert_loop ::
  "'d fp_ops \<Rightarrow> ('s, 'f, 'd) stream_lib \<Rightarrow> char \<Rightarrow> ('s, 'f, 'd) world \<Rightarrow>
   ('s, 'f, 'd) world option" where
  "convert_loop fp lib continue_choice w =
     (case read_double lib AskReading w of
        None \<Rightarrow> None
      | Some (raw_reading, w1) \<Rightarrow>
         (let w2 = clear_input_buffer lib w1;
              w3 = print (ConversionResult raw_reading
                            (real_value fp (current_calibration w2) raw_reading)) w2
          in case cin_char lib (print AskAnother w3) of
               (answer, w4) \<Rightarrow>
                 (let continue_choice1 =
                        (case answer of Some c \<Rightarrow> c | None \<Rightarrow> continue_choice);
                      w5 = clear_input_buffer lib w4
                  in if continue_choice1 = CHR ''y'' \<or> continue_choice1 = CHR ''Y''
                     then convert_loop fp lib continue_choice1 w5
                     else Some w5)))"

definition convert_raw_reading ::
  "'d fp_ops \<Rightarrow> ('s, 'f, 'd) stream_lib \<Rightarrow> ('s, 'f, 'd) world \<Rightarrow> ('s, 'f, 'd) world option"
  where
  "convert_raw_reading fp lib w =
     (let w1 = print ConvertHeader w
      in if \<not> is_valid (current_calibration w1)
         then Some (pause_screen lib (print NoCalibrationLoaded w1))
         else convert_loop fp lib (indeterminate lib)
                (print (CurrentCalibrationIs (slope (current_calibration w1))
                          (offset (current_calibration w1))) w1))"

subsection \<open>Option 4: save the calibration to a file\<close>

definition save_calibration_to_file ::
  "('s, 'f, 'd) stream_lib \<Rightarrow> ('s, 'f, 'd) world \<Rightarrow> ('s, 'f, 'd) world" where
  "save_calibration_to_file lib w =
     (let w1 = print SaveHeader w
      in if \<not> is_valid (current_calibration w1)
         then pause_screen lib (print NoCalibrationToSave w1)
         else
           (case cin_getline lib (print AskSaveName w1) of
              (filename, w2) \<Rightarrow>
                (case open_ofstream lib (disk w2) filename of
                   None \<Rightarrow> pause_screen lib (print (ErrorCannotCreate filename) w2)
                 | Some d1 \<Rightarrow>
                    (let c = current_calibration w2;
                         d2 = write_text lib d1 filename (fixed10 lib (slope c) @ [CHR 0x0A]);
                         d3 = write_text lib d2 filename (fixed10 lib (offset c) @ [CHR 0x0A])
                     in pause_screen lib
                          (print (SavedCalibration filename (slope c) (offset c))
                             (w2\<lparr>disk := d3\<rparr>))))))"

subsection \<open>The menu loop\<close>

text \<open>One turn of \<^verbatim>\<open>while (true)\<close> in \<^verbatim>\<open>main\<close>, lines 51 to 82.\<close>

definition main_iteration ::
  "'d fp_ops \<Rightarrow> ('s, 'f, 'd) stream_lib \<Rightarrow> ('s, 'f, 'd) world \<Rightarrow>
   ('s, 'f, 'd) world step option" where
  "main_iteration fp lib w =
     (case cin_int lib (display_menu w) of
        (None, w1) \<Rightarrow>
          Some (Continue (pause_screen lib (clear_input_buffer lib (print InvalidInput w1))))
      | (Some choice, w1) \<Rightarrow>
         (let w2 = clear_input_buffer lib w1
          in if choice = 1 then map_option Continue (enter_calibration_data fp lib w2)
             else if choice = 2 then Some (Continue (load_calibration_from_file lib w2))
             else if choice = 3 then map_option Continue (convert_raw_reading fp lib w2)
             else if choice = 4 then Some (Continue (save_calibration_to_file lib w2))
             else if choice = 5 then Some (Return 0 (print Goodbye w2))
             else Some (Continue (pause_screen lib (print InvalidOption w2)))))"

partial_function (option) main_loop ::
  "'d fp_ops \<Rightarrow> ('s, 'f, 'd) stream_lib \<Rightarrow> ('s, 'f, 'd) world \<Rightarrow>
   (int \<times> ('s, 'f, 'd) world) option" where
  "main_loop fp lib w =
     (case main_iteration fp lib w of
        None \<Rightarrow> None
      | Some (Continue w1) \<Rightarrow> main_loop fp lib w1
      | Some (Return code w1) \<Rightarrow> Some (code, w1))"

text \<open>The state at process start: the constructor of \<^verbatim>\<open>Calibration\<close>, then the banner.\<close>

definition initial_calibration :: "'d fp_ops \<Rightarrow> 'd Calibration" where
  "initial_calibration fp = \<lparr>slope = d_zero fp, offset = d_zero fp, is_valid = False\<rparr>"

definition initial_world :: "'d fp_ops \<Rightarrow> 's \<Rightarrow> 'f \<Rightarrow> ('s, 'f, 'd) world" where
  "initial_world fp s d =
     print Banner \<lparr>cin = s, cout = [], disk = d, current_calibration = initial_calibration fp\<rparr>"

definition main ::
  "'d fp_ops \<Rightarrow> ('s, 'f, 'd) stream_lib \<Rightarrow> 's \<Rightarrow> 'f \<Rightarrow> (int \<times> ('s, 'f, 'd) world) option" where
  "main fp lib s d = main_loop fp lib (initial_world fp s d)"

text \<open>The states in which the program stands at the top of the menu loop.\<close>

inductive at_menu ::
  "'d fp_ops \<Rightarrow> ('s, 'f, 'd) stream_lib \<Rightarrow> 's \<Rightarrow> 'f \<Rightarrow> ('s, 'f, 'd) world \<Rightarrow> bool"
  for fp lib s d where
    start: "at_menu fp lib s d (initial_world fp s d)"
  | turn: "at_menu fp lib s d w \<Longrightarrow> main_iteration fp lib w = Some (Continue w1) \<Longrightarrow>
           at_menu fp lib s d w1"

text \<open>
  \<open>later fp lib w w1\<close>: the program, standing at the menu in \<open>w\<close>, stands at the menu
  in \<open>w1\<close> some turns of the loop afterwards.
\<close>

inductive later ::
  "'d fp_ops \<Rightarrow> ('s, 'f, 'd) stream_lib \<Rightarrow> ('s, 'f, 'd) world \<Rightarrow> ('s, 'f, 'd) world \<Rightarrow> bool"
  for fp lib where
    now: "later fp lib w w"
  | next_turn: "later fp lib w w1 \<Longrightarrow> main_iteration fp lib w1 = Some (Continue w2) \<Longrightarrow>
                later fp lib w w2"

fun world_of :: "'w step \<Rightarrow> 'w" where
  "world_of (Continue w) = w"
| "world_of (Return code w) = w"

section \<open>Notions of the specification\<close>

text \<open>
  The regression as the specification words it: the four sums accumulated over the points in
  one pass, in the order of the points.
\<close>

fun accumulate :: "'d fp_ops \<Rightarrow> 'd \<times> 'd \<times> 'd \<times> 'd \<Rightarrow> 'd \<times> 'd \<Rightarrow> 'd \<times> 'd \<times> 'd \<times> 'd" where
  "accumulate fp (sum_x, sum_y, sum_xy, sum_x2) (x, y) =
     (d_add fp sum_x x, d_add fp sum_y y,
      d_add fp sum_xy (d_mul fp x y), d_add fp sum_x2 (d_mul fp x x))"

definition single_pass_sums :: "'d fp_ops \<Rightarrow> 'd list \<Rightarrow> 'd list \<Rightarrow> 'd \<times> 'd \<times> 'd \<times> 'd" where
  "single_pass_sums fp raw reference =
     foldl (accumulate fp) (d_zero fp, d_zero fp, d_zero fp, d_zero fp) (zip raw reference)"

text \<open>
  The history of the store, read off the output: the program reports every update of
  \<^verbatim>\<open>current_calibration\<close> by printing the new coefficients, after a regression
  (\<open>CalibrationResults\<close>, lines 200 to 211) and after a load (\<open>LoadedCalibration\<close>,
  lines 256 to 265), and prints these two messages nowhere else.
\<close>

fun update_of :: "'d message \<Rightarrow> ('d \<times> 'd) option" where
  "update_of (CalibrationResults a b) = Some (a, b)"
| "update_of (LoadedCalibration a b filename) = Some (a, b)"
| "update_of _ = None"

fun last_update :: "'d message list \<Rightarrow> ('d \<times> 'd) option" where
  "last_update [] = None"
| "last_update (m # ms) = (case last_update ms of Some u \<Rightarrow> Some u | None \<Rightarrow> update_of m)"

text \<open>The two messages that refuse an operation for want of a calibration.\<close>

fun not_calibrated :: "'d message \<Rightarrow> bool" where
  "not_calibrated NoCalibrationLoaded = True"
| "not_calibrated NoCalibrationToSave = True"
| "not_calibrated _ = False"

subsection \<open>Relations between states, for the proofs\<close>

text \<open>
  \<open>talks P w w1\<close>: from \<open>w\<close> to \<open>w1\<close> the program has only consumed input and printed
  messages, all of them in \<open>P\<close>; the store and the files are as they were.
\<close>

definition talks ::
  "('d message \<Rightarrow> bool) \<Rightarrow> ('s, 'f, 'd) world \<Rightarrow> ('s, 'f, 'd) world \<Rightarrow> bool" where
  "talks P w w1 \<longleftrightarrow>
     current_calibration w1 = current_calibration w \<and> disk w1 = disk w \<and>
     (\<exists>new. cout w1 = cout w @ new \<and> list_all P new)"

fun prompting :: "'d message \<Rightarrow> bool" where
  "prompting EnterDataHeader = True"
| "prompting AskNumPoints = True"
| "prompting InvalidNumPoints = True"
| "prompting (PointLabel k) = True"
| "prompting AskReference = True"
| "prompting AskRaw = True"
| "prompting InvalidNumber = True"
| "prompting _ = False"

text \<open>
  The effect of an operation on store and output, as far as the history goes: what it
  printed refuses nothing for want of a calibration if the store was valid, and either the
  store is as before and no update was reported, or the store is now \<open>(a, b, valid)\<close> and
  the last update reported is \<open>(a, b)\<close>.
\<close>

definition effect :: "('s, 'f, 'd) world \<Rightarrow> ('s, 'f, 'd) world \<Rightarrow> bool" where
  "effect w w1 \<longleftrightarrow>
     (\<exists>new. cout w1 = cout w @ new \<and>
        (is_valid (current_calibration w) \<longrightarrow> list_all (\<lambda>m. \<not> not_calibrated m) new) \<and>
        (current_calibration w1 = current_calibration w \<and> last_update new = None \<or>
         (\<exists>a b. current_calibration w1 = \<lparr>slope = a, offset = b, is_valid = True\<rparr> \<and>
            last_update new = Some (a, b))))"

definition benign :: "'d message \<Rightarrow> bool" where
  "benign m \<longleftrightarrow> update_of m = None \<and> \<not> not_calibrated m"

section \<open>Instances of the parameters\<close>

text \<open>
  Exact arithmetic on the rationals: \<^verbatim>\<open>double\<close> without rounding.
\<close>

definition exact_fp :: "rat fp_ops" where
  "exact_fp =
     \<lparr>d_zero = 0, d_eps = 1 / 10 ^ 10, d_of_int = of_int,
      d_add = (+), d_sub = (-), d_mul = (*), d_div = (/), d_abs = abs, d_less = (<)\<rparr>"

text \<open>
  IEEE 754 binary64 arithmetic in round-to-nearest, ties-to-even, on the values it shares
  with the rationals: every operation is the exact one followed by rounding to 53
  significant bits. The exponent is unbounded here, so the instance agrees with binary64
  wherever operands and results are zero or of a magnitude in the normal range of
  binary64; it has no infinities and no NaN.
\<close>

definition round_half_even :: "rat \<Rightarrow> int" where
  "round_half_even q =
     (let f = \<lfloor>q\<rfloor>; r = q - of_int f
      in if r < 1 / 2 then f else if 1 / 2 < r then f + 1 else if even f then f else f + 1)"





text \<open>
  A scripted console. The input is a list of tokens, already told apart: an integer, a
  number, a character, a word (a file name) or the end of a line. Extraction skips ends of
  lines, as \<^verbatim>\<open>>>\<close> skips white space, and consumes the next token when it is of the
  kind asked for. The files are an association list from names to their tokens; a text
  written to a file is kept as one word.
\<close>

datatype token = TInt int | TNum rat | TChr char | TWord string | TEol

definition skip_ws :: "token list \<Rightarrow> token list" where
  "skip_ws s = dropWhile (\<lambda>t. t = TEol) s"

definition rest_of_line :: "token list \<Rightarrow> token list" where
  "rest_of_line s = drop 1 (dropWhile (\<lambda>t. t \<noteq> TEol) s)"

function digits :: "int \<Rightarrow> string" where
  "digits n =
     (if n < 10 then [char_of (48 + n)] else digits (n div 10) @ [char_of (48 + n mod 10)])"
  by pat_completeness auto
termination
  by (relation "measure nat") auto

text \<open>A rational in fixed notation with ten digits after the point.\<close>

definition fixed10_rat :: "rat \<Rightarrow> string" where
  "fixed10_rat q =
     (let r = round_half_even (\<bar>q\<bar> * 10 ^ 10);
          frac = digits (r mod 10 ^ 10)
      in (if q < 0 then [CHR 0x2D] else []) @ digits (r div 10 ^ 10) @ [CHR 0x2E] @
         replicate (10 - length frac) (CHR 0x30) @ frac)"

type_synonym files = "(string \<times> token list) list"

definition script_lib :: "(token list, files, rat) stream_lib" where
  "script_lib =
     \<lparr>extract_int =
        (\<lambda>s. case skip_ws s of TInt n # r \<Rightarrow> (Some n, r) | r \<Rightarrow> (None, r)),
      extract_double =
        (\<lambda>s. case skip_ws s of
               TNum q # r \<Rightarrow> (Some q, r)
             | TInt n # r \<Rightarrow> (Some (of_int n), r)
             | r \<Rightarrow> (None, r)),
      extract_char =
        (\<lambda>s. case skip_ws s of TChr c # r \<Rightarrow> (Some c, r) | r \<Rightarrow> (None, r)),
      clear_ignore = rest_of_line,
      get_char = drop 1,
      get_line =
        (\<lambda>s. case s of TWord name # r \<Rightarrow> (name, rest_of_line r) | r \<Rightarrow> ([], rest_of_line r)),
      open_ifstream = (\<lambda>d name. map_of d name),
      open_ofstream = (\<lambda>d name. Some ((name, []) # filter (\<lambda>p. fst p \<noteq> name) d)),
      write_text =
        (\<lambda>d name t. map (\<lambda>p. if fst p = name then (fst p, snd p @ [TWord t]) else p) d),
      fixed10 = fixed10_rat,
      indeterminate = CHR ''?''\<rparr>"

definition at_console ::
  "token list \<Rightarrow> files \<Rightarrow> rat Calibration \<Rightarrow> (token list, files, rat) world" where
  "at_console s d c = \<lparr>cin = s, cout = [], disk = d, current_calibration = c\<rparr>"

definition demo_calibration :: "rat Calibration" where
  "demo_calibration = \<lparr>slope = 2, offset = 1, is_valid = True\<rparr>"

definition demo_files :: files where
  "demo_files =
     [(''cal.txt'', [TNum (3 / 2), TEol, TNum 3, TEol, TWord ''trailing text'', TEol]),
      (''half.txt'', [TNum (3 / 2), TEol]),
      (''text.txt'', [TWord ''slope'', TNum 3, TEol])]"

declare read_num_points.simps [code] read_double.simps [code] collect_points.simps [code]
  convert_loop.simps [code] main_loop.simps [code]

section \<open>Basic facts about the helpers\<close>

lemma print_simps:
  "cin (print m w) = cin w" "cout (print m w) = cout w @ [m]" "disk (print m w) = disk w"
  "current_calibration (print m w) = current_calibration w"
  by (simp_all add: print_def)

lemma clear_input_buffer_simps:
  "cin (clear_input_buffer lib w) = clear_ignore lib (cin w)"
  "cout (clear_input_buffer lib w) = cout w" "disk (clear_input_buffer lib w) = disk w"
  "current_calibration (clear_input_buffer lib w) = current_calibration w"
  by (simp_all add: clear_input_buffer_def)

lemma pause_screen_simps:
  "cin (pause_screen lib w) = get_char lib (cin w)"
  "cout (pause_screen lib w) = cout w @ [PressEnter]" "disk (pause_screen lib w) = disk w"
  "current_calibration (pause_screen lib w) = current_calibration w"
  by (simp_all add: pause_screen_def print_def Let_def)

lemma cin_int_eq:
  "cin_int lib w = (fst (extract_int lib (cin w)), w\<lparr>cin := snd (extract_int lib (cin w))\<rparr>)"
  by (simp add: cin_int_def split: prod.splits)

lemma cin_double_eq:
  "cin_double lib w =
     (fst (extract_double lib (cin w)), w\<lparr>cin := snd (extract_double lib (cin w))\<rparr>)"
  by (simp add: cin_double_def split: prod.splits)

lemma cin_char_eq:
  "cin_char lib w = (fst (extract_char lib (cin w)), w\<lparr>cin := snd (extract_char lib (cin w))\<rparr>)"
  by (simp add: cin_char_def split: prod.splits)

lemma cin_getline_eq:
  "cin_getline lib w = (fst (get_line lib (cin w)), w\<lparr>cin := snd (get_line lib (cin w))\<rparr>)"
  by (simp add: cin_getline_def split: prod.splits)

section \<open>What the prompt loops leave untouched\<close>

lemma talks_refl: "talks P w w"
  by (simp add: talks_def)

lemma talks_trans: "talks P w w1 \<Longrightarrow> talks P w1 w2 \<Longrightarrow> talks P w w2"
  by (auto simp: talks_def)

lemma talks_mono: "talks P w w1 \<Longrightarrow> (\<And>m. P m \<Longrightarrow> Q m) \<Longrightarrow> talks Q w w1"
  by (auto simp: talks_def list_all_iff)

lemma talks_print: "P m \<Longrightarrow> talks P w (print m w)"
  by (simp add: talks_def print_def)

lemma talks_clear: "talks P w (clear_input_buffer lib w)"
  by (simp add: talks_def clear_input_buffer_def)

lemma talks_pause: "P PressEnter \<Longrightarrow> talks P w (pause_screen lib w)"
  by (simp add: talks_def pause_screen_def print_def Let_def)

lemma talks_cin_int: "cin_int lib w = (r, w1) \<Longrightarrow> talks P w w1"
  by (auto simp: talks_def cin_int_def split: prod.splits)

lemma talks_cin_double: "cin_double lib w = (r, w1) \<Longrightarrow> talks P w w1"
  by (auto simp: talks_def cin_double_def split: prod.splits)

lemma talks_cin_char: "cin_char lib w = (r, w1) \<Longrightarrow> talks P w w1"
  by (auto simp: talks_def cin_char_def split: prod.splits)

lemma talks_cin_getline: "cin_getline lib w = (r, w1) \<Longrightarrow> talks P w w1"
  by (auto simp: talks_def cin_getline_def split: prod.splits)


lemma read_double_talks:
  "read_double lib prompt w = Some y \<Longrightarrow>
   talks (\<lambda>m. m = prompt \<or> m = InvalidNumber) w (snd y)"
proof (induction lib prompt w y rule: read_double.raw_induct[rotated 1, consumes 1])
  case (1 rd lib prompt w y)
  obtain r w1 where c: "cin_double lib (print prompt w) = (r, w1)"
    by (cases "cin_double lib (print prompt w)")
  have t1: "talks (\<lambda>m. m = prompt \<or> m = InvalidNumber) w w1"
    using talks_trans[OF talks_print talks_cin_double[OF c]] by simp
  show ?case
  proof (cases r)
    case None
    with 1 c have "talks (\<lambda>m. m = prompt \<or> m = InvalidNumber)
        (clear_input_buffer lib (print InvalidNumber w1)) (snd y)"
      by simp
    moreover have "talks (\<lambda>m. m = prompt \<or> m = InvalidNumber) w1
        (clear_input_buffer lib (print InvalidNumber w1))"
      by (rule talks_trans[OF talks_print talks_clear]) simp
    ultimately show ?thesis
      using t1 by (blast intro: talks_trans)
  next
    case (Some v)
    with 1 c t1 show ?thesis by auto
  qed
qed

lemma read_num_points_talks:
  "read_num_points lib (w :: ('s, 'f, 'd) world) = Some y \<Longrightarrow>
   talks (\<lambda>m. m = AskNumPoints \<or> m = InvalidNumPoints) w (snd y) \<and> 2 \<le> fst y"
proof (induction lib w y rule: read_num_points.raw_induct[rotated 1, consumes 1])
  case (1 rd lib w y)
  let ?P = "\<lambda>m::'d message. m = AskNumPoints \<or> m = InvalidNumPoints"
  obtain r w1 where c: "cin_int lib (print AskNumPoints w) = (r, w1)"
    by (cases "cin_int lib (print AskNumPoints w)")
  have t1: "talks ?P w w1"
    using talks_trans[OF talks_print talks_cin_int[OF c]] by simp
  have t2: "talks ?P w1 (clear_input_buffer lib (print InvalidNumPoints w1))"
    by (rule talks_trans[OF talks_print talks_clear]) simp
  show ?case
  proof (cases "\<exists>n. r = Some n \<and> 2 \<le> n")
    case True
    with 1 c t1 show ?thesis by auto
  next
    case False
    with 1(2) c have "rd lib (clear_input_buffer lib (print InvalidNumPoints w1)) = Some y"
      by (cases r) (auto split: if_splits)
    from 1(1)[OF this] t1 t2 show ?thesis
      by (blast intro: talks_trans)
  qed
qed


lemma collect_points_talks:
  "collect_points lib num_points i reference_values raw_readings (w :: ('s, 'f, 'd) world) = Some y \<Longrightarrow>
   talks (\<lambda>m. (\<exists>k. m = PointLabel k) \<or> m = AskReference \<or> m = AskRaw \<or> m = InvalidNumber)
     w (snd (snd y)) \<and>
   length (fst y) = length reference_values \<and> length (fst (snd y)) = length raw_readings"
proof (induction lib num_points i reference_values raw_readings w y
    rule: collect_points.raw_induct[rotated 1, consumes 1])
  case (1 cp lib num_points i reference_values raw_readings w y)
  let ?P = "\<lambda>m::'d message.
      (\<exists>k. m = PointLabel k) \<or> m = AskReference \<or> m = AskRaw \<or> m = InvalidNumber"
  show ?case
  proof (cases "i < num_points")
    case False
    with 1(2) show ?thesis by (auto simp: talks_refl)
  next
    case True
    with 1(2) obtain v w1 x w2 where
      r1: "read_double lib AskReference (print (PointLabel (i + 1)) w) = Some (v, w1)" and
      r2: "read_double lib AskRaw w1 = Some (x, w2)" and
      r3: "cp lib num_points (i + 1) (reference_values[nat i := v]) (raw_readings[nat i := x])
             (clear_input_buffer lib w2) = Some y"
      by (auto split: option.splits prod.splits)
    have t0: "talks ?P w (print (PointLabel (i + 1)) w)"
      by (rule talks_print) blast
    have "talks (\<lambda>m. m = AskReference \<or> m = InvalidNumber) (print (PointLabel (i + 1)) w) w1"
      using read_double_talks[OF r1] by simp
    then have t1: "talks ?P (print (PointLabel (i + 1)) w) w1"
      by (rule talks_mono) auto
    have "talks (\<lambda>m. m = AskRaw \<or> m = InvalidNumber) w1 w2"
      using read_double_talks[OF r2] by simp
    then have t2: "talks ?P w1 w2"
      by (rule talks_mono) auto
    have t3: "talks ?P w2 (clear_input_buffer lib w2)"
      by (rule talks_clear)
    from 1(1)[OF r3] have t4: "talks ?P (clear_input_buffer lib w2) (snd (snd y))" and
      l: "length (fst y) = length reference_values" "length (fst (snd y)) = length raw_readings"
      by simp_all
    from t0 t1 t2 t3 t4 have "talks ?P w (snd (snd y))"
      by (blast intro: talks_trans)
    with l show ?thesis by simp
  qed
qed

lemma read_points_talks:
  assumes "read_points fp lib w = Some (num_points, reference_values, raw_readings, w1)"
  shows "talks prompting w w1" and "2 \<le> num_points"
    and "length reference_values = nat num_points" and "length raw_readings = nat num_points"
proof -
  from assms obtain w2 where
    r1: "read_num_points lib (print EnterDataHeader w) = Some (num_points, w2)" and
    r2: "collect_points lib num_points 0 (replicate (nat num_points) (d_zero fp))
           (replicate (nat num_points) (d_zero fp)) (clear_input_buffer lib w2)
         = Some (reference_values, raw_readings, w1)"
    by (auto simp: read_points_def split: option.splits prod.splits)
  have t0: "talks prompting w (print EnterDataHeader w)"
    by (rule talks_print) simp
  have "talks (\<lambda>m. m = AskNumPoints \<or> m = InvalidNumPoints) (print EnterDataHeader w) w2"
    using read_num_points_talks[OF r1] by simp
  then have t1: "talks prompting (print EnterDataHeader w) w2"
    by (rule talks_mono) auto
  have t2: "talks prompting w2 (clear_input_buffer lib w2)"
    by (rule talks_clear)
  have "talks (\<lambda>m. (\<exists>k. m = PointLabel k) \<or> m = AskReference \<or> m = AskRaw \<or>
                   m = InvalidNumber) (clear_input_buffer lib w2) w1"
    using collect_points_talks[OF r2] by simp
  then have t3: "talks prompting (clear_input_buffer lib w2) w1"
    by (rule talks_mono) auto
  from t0 t1 t2 t3 show "talks prompting w w1"
    by (blast intro: talks_trans)
  from read_num_points_talks[OF r1] show "2 \<le> num_points" by simp
  from collect_points_talks[OF r2] show "length reference_values = nat num_points"
    and "length raw_readings = nat num_points" by simp_all
qed

lemma convert_loop_talks:
  "convert_loop fp lib continue_choice w = Some w1 \<Longrightarrow>
   talks (\<lambda>m. m = AskReading \<or> m = InvalidNumber \<or> m = AskAnother \<or>
              (\<exists>r. m = ConversionResult r (real_value fp (current_calibration w) r))) w w1"
proof (induction fp lib continue_choice w w1
    rule: convert_loop.raw_induct[rotated 1, consumes 1])
  case (1 cl fp lib continue_choice w y)
  let ?P = "\<lambda>m. m = AskReading \<or> m = InvalidNumber \<or> m = AskAnother \<or>
              (\<exists>r. m = ConversionResult r (real_value fp (current_calibration w) r))"
  from 1(2) obtain raw_reading w1 where
    r1: "read_double lib AskReading w = Some (raw_reading, w1)"
    by (auto split: option.splits)
  define w2 where "w2 = clear_input_buffer lib w1"
  define w3 where "w3 = print (ConversionResult raw_reading
                            (real_value fp (current_calibration w2) raw_reading)) w2"
  obtain answer w4 where c: "cin_char lib (print AskAnother w3) = (answer, w4)"
    by (cases "cin_char lib (print AskAnother w3)")
  define cc1 where "cc1 = (case answer of Some c \<Rightarrow> c | None \<Rightarrow> continue_choice)"
  define w5 where "w5 = clear_input_buffer lib w4"
  from 1(2) r1 c have body:
    "(if cc1 = CHR ''y'' \<or> cc1 = CHR ''Y'' then cl fp lib cc1 w5 else Some w5) = Some y"
    unfolding w2_def w3_def cc1_def w5_def by (simp add: Let_def split del: if_split)
  have "talks (\<lambda>m. m = AskReading \<or> m = InvalidNumber) w w1"
    using read_double_talks[OF r1] by simp
  then have t1: "talks ?P w w1"
    by (rule talks_mono) auto
  have t2: "talks ?P w1 w2"
    unfolding w2_def by (rule talks_clear)
  have cal2: "current_calibration w2 = current_calibration w"
    using t1 t2 by (simp add: talks_def)
  have t3: "talks ?P w2 w3"
    unfolding w3_def cal2 by (rule talks_print) blast
  have t4: "talks ?P w3 w4"
    using talks_trans[OF talks_print talks_cin_char[OF c], of ?P] by simp
  have t5: "talks ?P w4 w5"
    unfolding w5_def by (rule talks_clear)
  from t1 t2 t3 t4 t5 have t: "talks ?P w w5"
    by (blast intro: talks_trans)
  show ?case
  proof (cases "cc1 = CHR ''y'' \<or> cc1 = CHR ''Y''")
    case False
    with body t show ?thesis by auto
  next
    case True
    with body have "cl fp lib cc1 w5 = Some y" by simp
    from 1(1)[OF this] have "talks (\<lambda>m. m = AskReading \<or> m = InvalidNumber \<or> m = AskAnother \<or>
              (\<exists>r. m = ConversionResult r (real_value fp (current_calibration w5) r))) w5 y" .
    moreover have "current_calibration w5 = current_calibration w"
      using t by (simp add: talks_def)
    ultimately have "talks ?P w5 y" by simp
    with t show ?thesis by (blast intro: talks_trans)
  qed
qed

lemma talks_calibration: "talks P w w1 \<Longrightarrow> current_calibration w1 = current_calibration w"
  by (simp add: talks_def)

lemma talks_disk: "talks P w w1 \<Longrightarrow> disk w1 = disk w"
  by (simp add: talks_def)

section \<open>The regression\<close>

lemma sum_loop_foldl:
  "0 \<le> i \<Longrightarrow> length raw_readings = nat num_points \<Longrightarrow>
   length reference_values = nat num_points \<Longrightarrow>
   sum_loop fp num_points raw_readings reference_values i acc
     = foldl (accumulate fp) acc (drop (nat i) (zip raw_readings reference_values))"
proof (induction fp num_points raw_readings reference_values i acc rule: sum_loop.induct)
  case (1 fp num_points raw_readings reference_values i sum_x sum_y sum_xy sum_x2)
  let ?zs = "zip raw_readings reference_values"
  show ?case
  proof (cases "i < num_points")
    case False
    with 1(2-) have "drop (nat i) ?zs = []" by simp
    with False show ?thesis by (subst sum_loop.simps) simp
  next
    case True
    with 1(2-) have lt: "nat i < length ?zs" by simp
    have step: "drop (nat i) ?zs
        = (raw_readings ! nat i, reference_values ! nat i) # drop (nat (i + 1)) ?zs"
      using lt 1(2) Cons_nth_drop_Suc[OF lt, symmetric] by (simp add: nat_add_distrib)
    from True 1(2-) have ih: "sum_loop fp num_points raw_readings reference_values (i + 1)
        (d_add fp sum_x (raw_readings ! nat i), d_add fp sum_y (reference_values ! nat i),
         d_add fp sum_xy (d_mul fp (raw_readings ! nat i) (reference_values ! nat i)),
         d_add fp sum_x2 (d_mul fp (raw_readings ! nat i) (raw_readings ! nat i)))
      = foldl (accumulate fp)
        (d_add fp sum_x (raw_readings ! nat i), d_add fp sum_y (reference_values ! nat i),
         d_add fp sum_xy (d_mul fp (raw_readings ! nat i) (reference_values ! nat i)),
         d_add fp sum_x2 (d_mul fp (raw_readings ! nat i) (raw_readings ! nat i)))
        (drop (nat (i + 1)) ?zs)"
      by (intro 1(1)) simp_all
    show ?thesis
      using True by (subst sum_loop.simps) (simp add: step ih Let_def)
  qed
qed

lemma sum_loop_single_pass:
  "length raw_readings = nat num_points \<Longrightarrow> length reference_values = nat num_points \<Longrightarrow>
   sum_loop fp num_points raw_readings reference_values 0
     (d_zero fp, d_zero fp, d_zero fp, d_zero fp)
   = single_pass_sums fp raw_readings reference_values"
  using sum_loop_foldl[of 0 raw_readings num_points reference_values fp]
  by (simp add: single_pass_sums_def)

lemma enter_calibration_data_fit:
  assumes "read_points fp lib w = Some (num_points, reference, raw, w1)"
  shows "enter_calibration_data fp lib w = Some (fit_line fp lib num_points reference raw w1)"
  using assms by (simp add: enter_calibration_data_def)

lemma fit_line_sums:
  assumes "length raw = nat num_points" and "length reference = nat num_points"
    and "single_pass_sums fp raw reference = (sum_x, sum_y, sum_xy, sum_x2)"
  shows "fit_line fp lib num_points reference raw w =
     (let n = d_of_int fp num_points;
          numerator = d_sub fp (d_mul fp n sum_xy) (d_mul fp sum_x sum_y);
          denominator = d_sub fp (d_mul fp n sum_x2) (d_mul fp sum_x sum_x)
      in if d_less fp (d_abs fp denominator) (d_eps fp)
         then pause_screen lib (print ErrorIdentical w)
         else
           (let slope_v = d_div fp numerator denominator;
                offset_v = d_div fp (d_sub fp sum_y (d_mul fp slope_v sum_x)) n;
                w1 = w\<lparr>current_calibration :=
                       (current_calibration w)
                         \<lparr>slope := slope_v, offset := offset_v, is_valid := True\<rparr>\<rparr>
            in pause_screen lib (print (CalibrationResults slope_v offset_v) w1)))"
  using assms by (simp add: fit_line_def sum_loop_single_pass)

text \<open>
  C1. When \<^verbatim>\<open>enter_calibration_data\<close> has read its points, there are at least two of
  them, as many reference values as raw readings. With \<open>sum_x\<close>, \<open>sum_y\<close>, \<open>sum_xy\<close>,
  \<open>sum_x2\<close> the sums of one pass over the points, \<open>n\<close> their number as a \<^verbatim>\<open>double\<close>
  and \<open>denom = n * sum_x2 - sum_x * sum_x\<close>: unless \<open>\<bar>denom\<bar> < 1e-10\<close>, the operation
  returns and the store holds \<open>slope = (n * sum_xy - sum_x * sum_y) / denom\<close> and
  \<open>offset = (sum_y - slope * sum_x) / n\<close>, marked valid. The test is the program's own,
  the negation of \<^verbatim>\<open>fabs(denominator) < 1e-10\<close>; it holds whenever \<open>\<bar>denom\<bar> \<ge> 1e-10\<close>.
\<close>

theorem regression_formula:
  assumes "read_points fp lib w = Some (num_points, reference, raw, w1)"
    and "single_pass_sums fp raw reference = (sum_x, sum_y, sum_xy, sum_x2)"
    and "n = d_of_int fp (int (length raw))"
    and "denom = d_sub fp (d_mul fp n sum_x2) (d_mul fp sum_x sum_x)"
    and "\<not> d_less fp (d_abs fp denom) (d_eps fp)"
    and "slope_v = d_div fp (d_sub fp (d_mul fp n sum_xy) (d_mul fp sum_x sum_y)) denom"
    and "offset_v = d_div fp (d_sub fp sum_y (d_mul fp slope_v sum_x)) n"
  shows "2 \<le> length raw \<and> length reference = length raw \<and>
    (\<exists>w2. enter_calibration_data fp lib w = Some w2 \<and>
       current_calibration w2 = \<lparr>slope = slope_v, offset = offset_v, is_valid = True\<rparr>)"
proof -
  note rp = read_points_talks[OF assms(1)]
  from rp(2,4) have len: "int (length raw) = num_points" by simp
  have "current_calibration (fit_line fp lib num_points reference raw w1)
      = \<lparr>slope = slope_v, offset = offset_v, is_valid = True\<rparr>"
    using assms(3-7) unfolding fit_line_sums[OF rp(4) rp(3) assms(2)] len
    by (simp add: Let_def pause_screen_simps print_simps)
  with enter_calibration_data_fit[OF assms(1)] rp(2,3,4) show ?thesis by simp
qed

theorem regression_formula_witness:
  "read_points exact_fp script_lib
     (at_console [TInt 2, TEol, TInt 0, TEol, TInt 0, TEol, TInt 20, TEol, TInt 10, TEol, TEol]
        [] (initial_calibration exact_fp))
   = Some (2, [0, 20], [0, 10],
       \<lparr>cin = [TEol],
          cout = [EnterDataHeader, AskNumPoints, PointLabel 1, AskReference, AskRaw,
                  PointLabel 2, AskReference, AskRaw],
          disk = [], current_calibration = initial_calibration exact_fp\<rparr>)
   \<and> single_pass_sums exact_fp [0, 10] [0, 20] = (10, 20, 200, 100)
   \<and> \<not> d_less exact_fp (d_abs exact_fp 100) (d_eps exact_fp)
   \<and> (\<exists>w2. enter_calibration_data exact_fp script_lib
          (at_console [TInt 2, TEol, TInt 0, TEol, TInt 0, TEol, TInt 20, TEol, TInt 10, TEol,
             TEol] [] (initial_calibration exact_fp)) = Some w2
        \<and> current_calibration w2 = \<lparr>slope = 2, offset = 0, is_valid = True\<rparr>)"
proof -
  let ?w = "at_console [TInt 2, TEol, TInt 0, TEol, TInt 0, TEol, TInt 20, TEol, TInt 10, TEol,
     TEol] [] (initial_calibration exact_fp)"
  have rp: "read_points exact_fp script_lib ?w
   = Some (2, [0, 20], [0, 10],
       \<lparr>cin = [TEol],
          cout = [EnterDataHeader, AskNumPoints, PointLabel 1, AskReference, AskRaw,
                  PointLabel 2, AskReference, AskRaw],
          disk = [], current_calibration = initial_calibration exact_fp\<rparr>)"
    by code_simp
  have sums: "single_pass_sums exact_fp [0, 10] [0, 20] = (10, 20, 200, 100)"
    by code_simp
  have n: "(2 :: rat) = d_of_int exact_fp (int (length [0 :: rat, 10]))"
    by (simp add: exact_fp_def)
  have denom: "(100 :: rat) = d_sub exact_fp (d_mul exact_fp 2 100) (d_mul exact_fp 10 10)"
    by (simp add: exact_fp_def)
  have big: "\<not> d_less exact_fp (d_abs exact_fp 100) (d_eps exact_fp)"
    by (simp add: exact_fp_def)
  have sl: "(2 :: rat)
      = d_div exact_fp (d_sub exact_fp (d_mul exact_fp 2 200) (d_mul exact_fp 10 20)) 100"
    by (simp add: exact_fp_def)
  have off: "(0 :: rat) = d_div exact_fp (d_sub exact_fp 20 (d_mul exact_fp 2 10)) 2"
    by (simp add: exact_fp_def)
  from regression_formula[OF rp sums n denom big sl off] rp sums big show ?thesis
    by blast
qed

lemma enter_degenerate:
  assumes "read_points fp lib w = Some (num_points, reference, raw, w1)"
    and "single_pass_sums fp raw reference = (sum_x, sum_y, sum_xy, sum_x2)"
    and "n = d_of_int fp (int (length raw))"
    and "denom = d_sub fp (d_mul fp n sum_x2) (d_mul fp sum_x sum_x)"
    and "d_less fp (d_abs fp denom) (d_eps fp)"
  shows "2 \<le> length raw \<and> length reference = length raw \<and>
    (\<exists>w2. enter_calibration_data fp lib w = Some w2 \<and>
       current_calibration w2 = current_calibration w \<and> disk w2 = disk w \<and>
       (\<exists>new. cout w2 = cout w @ new @ [ErrorIdentical, PressEnter] \<and> list_all prompting new))"
proof -
  note rp = read_points_talks[OF assms(1)]
  from rp(2,4) have len: "int (length raw) = num_points" by simp
  have fit: "fit_line fp lib num_points reference raw w1 = pause_screen lib (print ErrorIdentical w1)"
    using assms(3-5) unfolding fit_line_sums[OF rp(4) rp(3) assms(2)] len
    by (simp add: Let_def)
  from rp(1) obtain new where "cout w1 = cout w @ new" "list_all prompting new"
    "current_calibration w1 = current_calibration w" "disk w1 = disk w"
    by (auto simp: talks_def)
  with enter_calibration_data_fit[OF assms(1)] fit rp(2,3,4) show ?thesis
    by (simp add: pause_screen_simps print_simps)
qed



text \<open>
  In exact arithmetic identical raw readings do give the denominator 0, and the operation
  refuses them.
\<close>

lemma exact_sums_identical:
  "length reference = k \<Longrightarrow>
   foldl (accumulate exact_fp) (sx, sy, sxy, sx2) (zip (replicate k c) reference) = (a, b, e, f)
   \<Longrightarrow> a = sx + of_nat k * c \<and> f = sx2 + of_nat k * (c * c)"
proof (induction reference arbitrary: k sx sy sxy sx2)
  case Nil
  then show ?case by simp
next
  case (Cons y ys)
  then obtain k1 where k: "k = Suc k1" "length ys = k1" by (cases k) auto
  from Cons.prems(2) have "foldl (accumulate exact_fp)
      (sx + c, sy + y, sxy + c * y, sx2 + c * c) (zip (replicate k1 c) ys) = (a, b, e, f)"
    by (simp add: k exact_fp_def)
  from Cons.IH[OF k(2) this] show ?case
    by (simp add: k algebra_simps)
qed

lemma identical_readings_exact_arithmetic:
  assumes "read_points exact_fp lib w = Some (num_points, reference, raw, w1)"
    and "\<forall>x \<in> set raw. x = c"
  shows "\<exists>w2. enter_calibration_data exact_fp lib w = Some w2 \<and>
       current_calibration w2 = current_calibration w \<and> disk w2 = disk w \<and>
       (\<exists>new. cout w2 = cout w @ new @ [ErrorIdentical, PressEnter] \<and> list_all prompting new)"
proof -
  note rp = read_points_talks[OF assms(1)]
  obtain sum_x sum_y sum_xy sum_x2 where
    sums: "single_pass_sums exact_fp raw reference = (sum_x, sum_y, sum_xy, sum_x2)"
    by (cases "single_pass_sums exact_fp raw reference") auto
  from assms(2) have raw: "raw = replicate (length raw) c"
    by (simp add: replicate_length_same)
  from rp(3,4) have "length reference = length raw" by simp
  from exact_sums_identical[OF this, of 0 0 0 0 c sum_x sum_y sum_xy sum_x2] sums raw
  have v: "sum_x = of_nat (length raw) * c" "sum_x2 = of_nat (length raw) * (c * c)"
    by (simp_all add: single_pass_sums_def exact_fp_def)
  define n where "n = d_of_int exact_fp (int (length raw))"
  define denom where "denom = d_sub exact_fp (d_mul exact_fp n sum_x2) (d_mul exact_fp sum_x sum_x)"
  have "denom = 0"
    by (simp add: denom_def n_def v exact_fp_def algebra_simps)
  then have "d_less exact_fp (d_abs exact_fp denom) (d_eps exact_fp)"
    by (simp add: exact_fp_def)
  from enter_degenerate[OF assms(1) sums n_def denom_def this] show ?thesis
    by simp
qed


section \<open>Loading a calibration\<close>

text \<open>
  C3. The load reads a file name, then: when the file cannot be opened, or the first
  extraction of a \<^verbatim>\<open>double\<close> from it fails, or the second one fails, it reports the
  matching error and the store is as before; when both extractions succeed, the store
  becomes (slope, offset, valid) with the two values read, all three fields at once. The
  state \<open>file2\<close> of the file after the second value does not occur in the result: what
  follows the second token is never read.
\<close>

theorem load_outcomes:
  "get_line lib (cin w) = (filename, s1) \<Longrightarrow>
   (open_ifstream lib (disk w) filename = None \<longrightarrow>
      current_calibration (load_calibration_from_file lib w) = current_calibration w \<and>
      disk (load_calibration_from_file lib w) = disk w \<and>
      cout (load_calibration_from_file lib w)
        = cout w @ [LoadHeader, ErrorCannotOpen filename, PressEnter]) \<and>
   (\<forall>file. open_ifstream lib (disk w) filename = Some file \<and>
        fst (extract_double lib file) = None \<longrightarrow>
      current_calibration (load_calibration_from_file lib w) = current_calibration w \<and>
      disk (load_calibration_from_file lib w) = disk w \<and>
      cout (load_calibration_from_file lib w) = cout w @ [LoadHeader, ErrorReadSlope, PressEnter]) \<and>
   (\<forall>file a file1. open_ifstream lib (disk w) filename = Some file \<and>
        extract_double lib file = (Some a, file1) \<and> fst (extract_double lib file1) = None \<longrightarrow>
      current_calibration (load_calibration_from_file lib w) = current_calibration w \<and>
      disk (load_calibration_from_file lib w) = disk w \<and>
      cout (load_calibration_from_file lib w) = cout w @ [LoadHeader, ErrorReadOffset, PressEnter]) \<and>
   (\<forall>file a file1 b file2. open_ifstream lib (disk w) filename = Some file \<and>
        extract_double lib file = (Some a, file1) \<and>
        extract_double lib file1 = (Some b, file2) \<longrightarrow>
      current_calibration (load_calibration_from_file lib w)
        = \<lparr>slope = a, offset = b, is_valid = True\<rparr> \<and>
      disk (load_calibration_from_file lib w) = disk w \<and>
      cout (load_calibration_from_file lib w)
        = cout w @ [LoadHeader, LoadedCalibration a b filename, PressEnter])"
  by (auto simp: load_calibration_from_file_def cin_getline_eq print_simps pause_screen_simps
      Let_def split: option.splits prod.splits)

theorem load_outcomes_witness:
  "current_calibration (load_calibration_from_file script_lib
      (at_console [TWord ''none.txt'', TEol, TEol] demo_files demo_calibration))
     = demo_calibration
   \<and> current_calibration (load_calibration_from_file script_lib
      (at_console [TWord ''text.txt'', TEol, TEol] demo_files demo_calibration))
     = demo_calibration
   \<and> current_calibration (load_calibration_from_file script_lib
      (at_console [TWord ''half.txt'', TEol, TEol] demo_files demo_calibration))
     = demo_calibration
   \<and> current_calibration (load_calibration_from_file script_lib
      (at_console [TWord ''cal.txt'', TEol, TEol] demo_files demo_calibration))
     = \<lparr>slope = 3 / 2, offset = 3, is_valid = True\<rparr>"
proof -
  let ?w = "\<lambda>name. at_console [TWord name, TEol, TEol] demo_files demo_calibration"
  have g: "get_line script_lib (cin (?w name)) = (name, [TEol])" for name
    by (simp add: script_lib_def at_console_def rest_of_line_def)
  have a: "open_ifstream script_lib (disk (?w ''none.txt'')) ''none.txt'' = None"
    by code_simp
  have b: "open_ifstream script_lib (disk (?w ''text.txt'')) ''text.txt''
             = Some [TWord ''slope'', TNum 3, TEol]
           \<and> fst (extract_double script_lib [TWord ''slope'', TNum 3, TEol]) = None"
    by code_simp
  have c: "open_ifstream script_lib (disk (?w ''half.txt'')) ''half.txt''
             = Some [TNum (3 / 2), TEol]
           \<and> extract_double script_lib [TNum (3 / 2), TEol] = (Some (3 / 2), [TEol])
           \<and> fst (extract_double script_lib [TEol]) = None"
    by code_simp
  have d: "open_ifstream script_lib (disk (?w ''cal.txt'')) ''cal.txt''
             = Some [TNum (3 / 2), TEol, TNum 3, TEol, TWord ''trailing text'', TEol]
           \<and> extract_double script_lib
                [TNum (3 / 2), TEol, TNum 3, TEol, TWord ''trailing text'', TEol]
               = (Some (3 / 2), [TEol, TNum 3, TEol, TWord ''trailing text'', TEol])
           \<and> extract_double script_lib [TEol, TNum 3, TEol, TWord ''trailing text'', TEol]
               = (Some 3, [TEol, TWord ''trailing text'', TEol])"
    by code_simp
  have ca: "current_calibration (?w name) = demo_calibration" for name
    by (simp add: at_console_def)
  note t = load_outcomes[OF g]
  from t[THEN conjunct1, rule_format, OF a]
  have 1: "current_calibration (load_calibration_from_file script_lib (?w ''none.txt''))
             = demo_calibration"
    by (simp add: ca)
  from t[THEN conjunct2, THEN conjunct1, rule_format, OF b]
  have 2: "current_calibration (load_calibration_from_file script_lib (?w ''text.txt''))
             = demo_calibration"
    by (simp add: ca)
  from t[THEN conjunct2, THEN conjunct2, THEN conjunct1, rule_format, OF c]
  have 3: "current_calibration (load_calibration_from_file script_lib (?w ''half.txt''))
             = demo_calibration"
    by (simp add: ca)
  from t[THEN conjunct2, THEN conjunct2, THEN conjunct2, rule_format, OF d]
  have 4: "current_calibration (load_calibration_from_file script_lib (?w ''cal.txt''))
             = \<lparr>slope = 3 / 2, offset = 3, is_valid = True\<rparr>"
    by simp
  from 1 2 3 4 show ?thesis by simp
qed

section \<open>Saving a calibration\<close>

text \<open>
  What a save writes: the file is created or emptied, then receives the slope and the
  offset in this order, each in the rendering \<^verbatim>\<open>fixed << setprecision(10)\<close> and each
  followed by a newline. The store is not touched.
\<close>

lemma save_writes_two_lines:
  assumes "is_valid (current_calibration w)"
    and "get_line lib (cin w) = (filename, s1)"
    and "open_ofstream lib (disk w) filename = Some d1"
  shows "disk (save_calibration_to_file lib w)
      = write_text lib
          (write_text lib d1 filename (fixed10 lib (slope (current_calibration w)) @ [CHR 0x0A]))
          filename (fixed10 lib (offset (current_calibration w)) @ [CHR 0x0A])"
    and "current_calibration (save_calibration_to_file lib w) = current_calibration w"
  using assms
  by (simp_all add: save_calibration_to_file_def cin_getline_eq Let_def print_simps
      pause_screen_simps)

lemma save_example:
  "disk (save_calibration_to_file script_lib
      (at_console [TWord ''out.txt'', TEol, TEol] demo_files
         \<lparr>slope = 3 / 2, offset = - 1 / 4, is_valid = True\<rparr>))
   = (''out.txt'', [TWord ''1.5000000000\<newline>'', TWord ''-0.2500000000\<newline>'']) # demo_files"
  by code_simp

section \<open>Converting readings\<close>

text \<open>
  C5. With a valid calibration, every value the conversion session reports for a raw
  reading \<open>r\<close> is \<open>slope * r + offset\<close>, computed with the \<^verbatim>\<open>double\<close> product and sum
  from the stored slope and offset and from \<open>r\<close> alone. And the session does report it:
  when a reading \<open>r\<close> is entered and the answer to "another?" is not y or Y, the session
  returns after printing exactly that one result.
\<close>

theorem conversion_is_affine:
  "is_valid (current_calibration w) \<Longrightarrow>
   (\<forall>w1. convert_raw_reading fp lib w = Some w1 \<longrightarrow>
      (\<exists>new. cout w1 = cout w @ new \<and>
         (\<forall>r v. ConversionResult r v \<in> set new \<longrightarrow>
            v = d_add fp (d_mul fp (slope (current_calibration w)) r)
                  (offset (current_calibration w))))) \<and>
   (\<forall>r s1 c s2. extract_double lib (cin w) = (Some r, s1) \<and>
        extract_char lib (clear_ignore lib s1) = (Some c, s2) \<and>
        c \<noteq> CHR ''y'' \<and> c \<noteq> CHR ''Y'' \<longrightarrow>
      (\<exists>w1. convert_raw_reading fp lib w = Some w1 \<and>
         cout w1 = cout w @
           [ConvertHeader,
            CurrentCalibrationIs (slope (current_calibration w)) (offset (current_calibration w)),
            AskReading,
            ConversionResult r
              (d_add fp (d_mul fp (slope (current_calibration w)) r)
                 (offset (current_calibration w))),
            AskAnother]))"
proof (intro conjI allI impI)
  assume v: "is_valid (current_calibration w)"
  let ?w2 = "print (CurrentCalibrationIs (slope (current_calibration w))
               (offset (current_calibration w))) (print ConvertHeader w)"
  have unfold: "convert_raw_reading fp lib w = convert_loop fp lib (indeterminate lib) ?w2"
    using v by (simp add: convert_raw_reading_def Let_def print_simps)
  {
    fix w1
    assume "convert_raw_reading fp lib w = Some w1"
    with unfold have "convert_loop fp lib (indeterminate lib) ?w2 = Some w1" by simp
    from convert_loop_talks[OF this] obtain new where
      n: "cout w1 = cout ?w2 @ new" and
      p: "list_all (\<lambda>m. m = AskReading \<or> m = InvalidNumber \<or> m = AskAnother \<or>
            (\<exists>r. m = ConversionResult r (real_value fp (current_calibration ?w2) r))) new"
      by (auto simp: talks_def)
    let ?new = "[ConvertHeader, CurrentCalibrationIs (slope (current_calibration w))
                   (offset (current_calibration w))] @ new"
    have "cout w1 = cout w @ ?new"
      using n by (simp add: print_simps)
    moreover have "\<forall>r v. ConversionResult r v \<in> set ?new \<longrightarrow>
            v = d_add fp (d_mul fp (slope (current_calibration w)) r)
                  (offset (current_calibration w))"
      using p by (auto simp: list_all_iff real_value_def print_simps)
    ultimately show "\<exists>new. cout w1 = cout w @ new \<and>
         (\<forall>r v. ConversionResult r v \<in> set new \<longrightarrow>
            v = d_add fp (d_mul fp (slope (current_calibration w)) r)
                  (offset (current_calibration w)))"
      by blast
  }
  {
    fix r s1 c s2
    assume h: "extract_double lib (cin w) = (Some r, s1) \<and>
        extract_char lib (clear_ignore lib s1) = (Some c, s2) \<and>
        c \<noteq> CHR ''y'' \<and> c \<noteq> CHR ''Y''"
    have rd: "read_double lib AskReading ?w2 = Some (r, (print AskReading ?w2)\<lparr>cin := s1\<rparr>)"
      using h by (subst read_double.simps) (simp add: cin_double_eq print_simps)
    show "\<exists>w1. convert_raw_reading fp lib w = Some w1 \<and>
         cout w1 = cout w @
           [ConvertHeader,
            CurrentCalibrationIs (slope (current_calibration w)) (offset (current_calibration w)),
            AskReading,
            ConversionResult r
              (d_add fp (d_mul fp (slope (current_calibration w)) r)
                 (offset (current_calibration w))),
            AskAnother]"
      unfolding unfold
      using h
      by (subst convert_loop.simps)
        (simp add: rd cin_char_eq print_simps clear_input_buffer_simps Let_def real_value_def)
  }
qed

theorem conversion_is_affine_witness:
  "is_valid (current_calibration (at_console [TInt 5, TEol, TChr (CHR ''n''), TEol] []
       demo_calibration))
   \<and> convert_raw_reading exact_fp script_lib
       (at_console [TInt 5, TEol, TChr (CHR ''n''), TEol] [] demo_calibration)
     = Some \<lparr>cin = [],
         cout = [ConvertHeader, CurrentCalibrationIs 2 1, AskReading, ConversionResult 5 11,
                 AskAnother],
         disk = [], current_calibration = demo_calibration\<rparr>
   \<and> d_add exact_fp (d_mul exact_fp (slope demo_calibration) 5) (offset demo_calibration) = 11"
proof -
  let ?w = "at_console [TInt 5, TEol, TChr (CHR ''n''), TEol] [] demo_calibration"
  have v: "is_valid (current_calibration ?w)"
    by (simp add: at_console_def demo_calibration_def)
  have run: "convert_raw_reading exact_fp script_lib ?w
     = Some \<lparr>cin = [],
         cout = [ConvertHeader, CurrentCalibrationIs 2 1, AskReading, ConversionResult 5 11,
                 AskAnother],
         disk = [], current_calibration = demo_calibration\<rparr>"
    by code_simp
  from conversion_is_affine[OF v, of exact_fp script_lib, THEN conjunct1, rule_format, OF run]
  obtain new where n: "[ConvertHeader, CurrentCalibrationIs 2 1, AskReading,
        ConversionResult 5 11, AskAnother] = new" and
    a: "\<forall>r v. ConversionResult r v \<in> set new \<longrightarrow>
          v = d_add exact_fp (d_mul exact_fp (slope demo_calibration) r) (offset demo_calibration)"
    by (auto simp: at_console_def)
  have "ConversionResult 5 11 \<in> set new"
    unfolding n[symmetric] by simp
  with a have "d_add exact_fp (d_mul exact_fp (slope demo_calibration) 5)
      (offset demo_calibration) = 11"
    by metis
  with v run show ?thesis by blast
qed

text \<open>
  C10. A conversion session that returns leaves the calibration store as it found it:
  slope, offset and validity are the same before and after, whatever was read.
\<close>

theorem convert_keeps_store:
  "convert_raw_reading fp lib w = Some w1 \<Longrightarrow> current_calibration w1 = current_calibration w"
proof -
  assume r: "convert_raw_reading fp lib w = Some w1"
  show ?thesis
  proof (cases "is_valid (current_calibration w)")
    case False
    with r show ?thesis
      by (auto simp: convert_raw_reading_def Let_def print_def pause_screen_def)
  next
    case True
    let ?w2 = "print (CurrentCalibrationIs (slope (current_calibration w))
                 (offset (current_calibration w))) (print ConvertHeader w)"
    from True r have "convert_loop fp lib (indeterminate lib) ?w2 = Some w1"
      by (simp add: convert_raw_reading_def Let_def print_def)
    then have "current_calibration w1 = current_calibration ?w2"
      by (rule talks_calibration[OF convert_loop_talks])
    then show ?thesis by (simp add: print_def)
  qed
qed

theorem convert_keeps_store_witness:
  "convert_raw_reading exact_fp script_lib
     (at_console [TInt 5, TEol, TChr (CHR ''y''), TEol, TWord ''x'', TEol, TNum (1 / 2), TEol,
        TChr (CHR ''n''), TEol] [] \<lparr>slope = 2, offset = 1, is_valid = True\<rparr>)
   = Some \<lparr>cin = [],
        cout = [ConvertHeader, CurrentCalibrationIs 2 1, AskReading, ConversionResult 5 11,
          AskAnother, AskReading, InvalidNumber, AskReading, ConversionResult (1 / 2) 2,
          AskAnother],
        disk = [], current_calibration = \<lparr>slope = 2, offset = 1, is_valid = True\<rparr>\<rparr>
   \<and> current_calibration \<lparr>cin = [],
        cout = [ConvertHeader, CurrentCalibrationIs 2 1, AskReading, ConversionResult 5 11,
          AskAnother, AskReading, InvalidNumber, AskReading, ConversionResult (1 / 2) 2,
          AskAnother],
        disk = ([] :: files), current_calibration = \<lparr>slope = 2, offset = 1, is_valid = True\<rparr>\<rparr>
     = current_calibration (at_console [TInt 5, TEol, TChr (CHR ''y''), TEol, TWord ''x'', TEol,
        TNum (1 / 2), TEol, TChr (CHR ''n''), TEol] [] \<lparr>slope = 2, offset = 1, is_valid = True\<rparr>)"
proof -
  have run: "convert_raw_reading exact_fp script_lib
     (at_console [TInt 5, TEol, TChr (CHR ''y''), TEol, TWord ''x'', TEol, TNum (1 / 2), TEol,
        TChr (CHR ''n''), TEol] [] \<lparr>slope = 2, offset = 1, is_valid = True\<rparr>)
   = Some \<lparr>cin = [],
        cout = [ConvertHeader, CurrentCalibrationIs 2 1, AskReading, ConversionResult 5 11,
          AskAnother, AskReading, InvalidNumber, AskReading, ConversionResult (1 / 2) 2,
          AskAnother],
        disk = [], current_calibration = \<lparr>slope = 2, offset = 1, is_valid = True\<rparr>\<rparr>"
    by code_simp
  from convert_keeps_store[OF run] run show ?thesis by simp
qed

section \<open>Operations without a calibration\<close>

text \<open>
  C6. While the store is not valid, both the conversion and the save stop at once with
  their "no calibration" message: they return, the store and the files are as before (so
  nothing was written), and chosen from the menu (options 3 and 4) they hand control back
  to the menu loop, which goes on.
\<close>

theorem refused_without_calibration:
  "\<not> is_valid (current_calibration w) \<Longrightarrow>
     (\<exists>w1. convert_raw_reading fp lib w = Some w1 \<and>
        current_calibration w1 = current_calibration w \<and> disk w1 = disk w \<and>
        cout w1 = cout w @ [ConvertHeader, NoCalibrationLoaded, PressEnter]) \<and>
     current_calibration (save_calibration_to_file lib w) = current_calibration w \<and>
     disk (save_calibration_to_file lib w) = disk w \<and>
     cout (save_calibration_to_file lib w) = cout w @ [SaveHeader, NoCalibrationToSave, PressEnter] \<and>
     (fst (extract_int lib (cin w)) = Some 3 \<or> fst (extract_int lib (cin w)) = Some 4 \<longrightarrow>
        (\<exists>w1. main_iteration fp lib w = Some (Continue w1) \<and>
           current_calibration w1 = current_calibration w \<and> disk w1 = disk w))"
  by (auto simp: convert_raw_reading_def save_calibration_to_file_def main_iteration_def
      display_menu_def cin_int_eq Let_def print_simps pause_screen_simps
      clear_input_buffer_simps)

theorem refused_without_calibration_witness:
  "\<not> is_valid (current_calibration (at_console [TInt 3, TEol, TEol] [] (initial_calibration exact_fp)))
   \<and> fst (extract_int script_lib (cin (at_console [TInt 3, TEol, TEol] []
             (initial_calibration exact_fp)))) = Some 3
   \<and> (\<exists>w1. main_iteration exact_fp script_lib
              (at_console [TInt 3, TEol, TEol] [] (initial_calibration exact_fp))
            = Some (Continue w1)
          \<and> current_calibration w1 = initial_calibration exact_fp \<and> disk w1 = [])
   \<and> cout (save_calibration_to_file script_lib
              (at_console [TInt 3, TEol, TEol] [] (initial_calibration exact_fp)))
       = [SaveHeader, NoCalibrationToSave, PressEnter]"
proof -
  let ?w = "at_console [TInt 3, TEol, TEol] [] (initial_calibration exact_fp)"
  have h: "\<not> is_valid (current_calibration ?w)"
    by (simp add: at_console_def initial_calibration_def)
  have c: "fst (extract_int script_lib (cin ?w)) = Some 3"
    by code_simp
  from refused_without_calibration[OF h, of exact_fp script_lib] c h show ?thesis
    by (simp add: at_console_def)
qed

section \<open>The menu\<close>



text \<open>The program ends with exit code 0 or not at all.\<close>

lemma main_loop_returns_zero: "main_loop fp lib w = Some y \<Longrightarrow> fst y = 0"
proof (induction fp lib w y rule: main_loop.raw_induct[rotated 1, consumes 1])
  case (1 ml fp lib w y)
  from 1(2) obtain r where r: "main_iteration fp lib w = Some r"
    by (auto split: option.splits)
  show ?case
  proof (cases r)
    case (Continue w1)
    with 1 r show ?thesis by simp
  next
    case (Return code w1)
    with 1(2) r have "y = (code, w1)" by simp
    moreover from r Return have "code = 0"
      by (auto simp: main_iteration_def Let_def split: prod.splits option.splits if_splits)
    ultimately show ?thesis by simp
  qed
qed

lemma main_returns_zero: "main fp lib s d = Some (code, w) \<Longrightarrow> code = 0"
  using main_loop_returns_zero[of fp lib "initial_world fp s d" "(code, w)"]
  by (simp add: main_def)

text \<open>
  A whole session in exact arithmetic: the points (raw 0, reference 0) and (raw 10,
  reference 20) give slope 2 and offset 0, the raw reading 5 converts to 10, and the
  program exits with code 0.
\<close>

lemma session_example:
  "main exact_fp script_lib
     [TInt 1, TEol, TInt 2, TEol, TInt 0, TInt 0, TEol, TInt 20, TInt 10, TEol, TEol,
      TInt 3, TEol, TInt 5, TEol, TChr (CHR ''n''), TEol, TInt 5, TEol] []
   = Some (0,
       \<lparr>cin = [],
          cout = [Banner, MainMenu, EnterDataHeader, AskNumPoints, PointLabel 1, AskReference,
                  AskRaw, PointLabel 2, AskReference, AskRaw, CalibrationResults 2 0,
                  PressEnter, MainMenu, ConvertHeader, CurrentCalibrationIs 2 0, AskReading,
                  ConversionResult 5 10, AskAnother, MainMenu, Goodbye],
          disk = [], current_calibration = \<lparr>slope = 2, offset = 0, is_valid = True\<rparr>\<rparr>)"
  by code_simp

lemma later_first:
  assumes "later fp lib w1 w2" and "main_iteration fp lib w = Some (Continue w1)"
  shows "later fp lib w w2"
  using assms
proof (induction rule: later.induct)
  case (now w1)
  from later.now this show ?case by (rule later.next_turn)
next
  case (next_turn w1 w2 w3)
  from next_turn.IH[OF next_turn.prems] next_turn.hyps(2) show ?case
    by (rule later.next_turn)
qed

text \<open>
  The states of \<open>later\<close> are the ones the program goes through: a run of the menu loop
  that returns has reached, some turns later, a state in which the turn returned.
\<close>

lemma main_loop_later:
  "main_loop fp lib w = Some y \<Longrightarrow>
   \<exists>w1. later fp lib w w1 \<and> main_iteration fp lib w1 = Some (Return (fst y) (snd y))"
proof (induction fp lib w y rule: main_loop.raw_induct[rotated 1, consumes 1])
  case (1 ml fp lib w y)
  from 1(2) obtain r where r: "main_iteration fp lib w = Some r"
    by (auto split: option.splits)
  show ?case
  proof (cases r)
    case (Continue w1)
    with 1(2) r have "ml fp lib w1 = Some y" by simp
    from 1(1)[OF this] obtain w2 where
      "later fp lib w1 w2" "main_iteration fp lib w2 = Some (Return (fst y) (snd y))"
      by blast
    with r Continue show ?thesis
      by (blast intro: later_first)
  next
    case (Return code w1)
    with 1(2) r have "y = (code, w1)" by simp
    with r Return show ?thesis
      by (auto intro: later.now)
  qed
qed

lemma at_menu_later: "at_menu fp lib s d w \<longleftrightarrow> later fp lib (initial_world fp s d) w"
proof
  show "at_menu fp lib s d w \<Longrightarrow> later fp lib (initial_world fp s d) w"
    by (induction rule: at_menu.induct) (auto intro: later.intros)
  have "later fp lib w0 w \<Longrightarrow> w0 = initial_world fp s d \<Longrightarrow> at_menu fp lib s d w" for w0
    by (induction rule: later.induct) (auto intro: at_menu.intros)
  then show "later fp lib (initial_world fp s d) w \<Longrightarrow> at_menu fp lib s d w"
    by simp
qed

section \<open>The history of the store\<close>

lemma last_update_append:
  "last_update (xs @ ys) = (case last_update ys of Some u \<Rightarrow> Some u | None \<Rightarrow> last_update xs)"
  by (induction xs) (auto split: option.splits)

lemma last_update_benign: "list_all benign ms \<Longrightarrow> last_update ms = None"
  by (induction ms) (auto simp: benign_def)

lemma not_calibrated_benign: "list_all benign ms \<Longrightarrow> list_all (\<lambda>m. \<not> not_calibrated m) ms"
  by (induction ms) (auto simp: benign_def)

lemma prompting_benign: "prompting m \<Longrightarrow> benign m"
  by (cases m) (auto simp: benign_def)

lemma talks_effect:
  assumes "talks P w w1" and "\<And>m. P m \<Longrightarrow> benign m"
  shows "effect w w1"
proof -
  from assms(1) obtain new where n: "cout w1 = cout w @ new" "list_all P new"
    and c: "current_calibration w1 = current_calibration w"
    by (auto simp: talks_def)
  from n(2) assms(2) have "list_all benign new"
    by (auto simp: list_all_iff)
  with n(1) c show ?thesis
    unfolding effect_def by (blast intro: last_update_benign not_calibrated_benign)
qed

lemma talks_then_effect:
  assumes "talks P w w1" and "\<And>m. P m \<Longrightarrow> benign m" and "effect w1 w2"
  shows "effect w w2"
proof -
  from assms(1) obtain pre where n: "cout w1 = cout w @ pre" "list_all P pre"
    and c: "current_calibration w1 = current_calibration w"
    by (auto simp: talks_def)
  from n(2) assms(2) have b: "list_all benign pre"
    by (auto simp: list_all_iff)
  from assms(3) obtain new where e: "cout w2 = cout w1 @ new"
    "is_valid (current_calibration w1) \<longrightarrow> list_all (\<lambda>m. \<not> not_calibrated m) new"
    "current_calibration w2 = current_calibration w1 \<and> last_update new = None \<or>
       (\<exists>a b. current_calibration w2 = \<lparr>slope = a, offset = b, is_valid = True\<rparr> \<and>
          last_update new = Some (a, b))"
    unfolding effect_def by blast
  have 1: "cout w2 = cout w @ (pre @ new)"
    using n(1) e(1) by simp
  have 2: "is_valid (current_calibration w) \<longrightarrow> list_all (\<lambda>m. \<not> not_calibrated m) (pre @ new)"
    using e(2) c not_calibrated_benign[OF b] by simp
  have 3: "current_calibration w2 = current_calibration w \<and> last_update (pre @ new) = None \<or>
       (\<exists>a b. current_calibration w2 = \<lparr>slope = a, offset = b, is_valid = True\<rparr> \<and>
          last_update (pre @ new) = Some (a, b))"
    using e(3) c last_update_benign[OF b] by (auto simp: last_update_append)
  from 1 2 3 show ?thesis
    unfolding effect_def by blast
qed

lemma fit_line_effect: "effect w (fit_line fp lib num_points reference raw w)"
  by (auto simp: effect_def fit_line_def Let_def pause_screen_simps print_simps
      split: prod.splits)

lemma enter_calibration_data_effect:
  assumes "enter_calibration_data fp lib w = Some w2"
  shows "effect w w2"
proof -
  from assms obtain num_points reference raw w1 where
    rp: "read_points fp lib w = Some (num_points, reference, raw, w1)" and
    w2: "w2 = fit_line fp lib num_points reference raw w1"
    by (auto simp: enter_calibration_data_def split: option.splits)
  from read_points_talks(1)[OF rp] prompting_benign fit_line_effect[of w1] show ?thesis
    unfolding w2 by (rule talks_then_effect)
qed

lemma load_calibration_from_file_effect: "effect w (load_calibration_from_file lib w)"
  by (auto simp: effect_def load_calibration_from_file_def cin_getline_eq Let_def
      pause_screen_simps print_simps split: prod.splits option.splits)

lemma save_calibration_to_file_effect: "effect w (save_calibration_to_file lib w)"
  by (auto simp: effect_def save_calibration_to_file_def cin_getline_eq Let_def
      pause_screen_simps print_simps split: prod.splits option.splits)

lemma convert_raw_reading_effect:
  assumes "convert_raw_reading fp lib w = Some w1"
  shows "effect w w1"
proof (cases "is_valid (current_calibration w)")
  case False
  with assms show ?thesis
    by (auto simp: effect_def convert_raw_reading_def Let_def pause_screen_simps print_simps)
next
  case True
  let ?w2 = "print (CurrentCalibrationIs (slope (current_calibration w))
               (offset (current_calibration w))) (print ConvertHeader w)"
  let ?P = "\<lambda>m. m = ConvertHeader \<or> (\<exists>a b. m = CurrentCalibrationIs a b) \<or>
              m = AskReading \<or> m = InvalidNumber \<or> m = AskAnother \<or>
              (\<exists>r v. m = ConversionResult r v)"
  from True assms have "convert_loop fp lib (indeterminate lib) ?w2 = Some w1"
    by (simp add: convert_raw_reading_def Let_def print_simps)
  from convert_loop_talks[OF this] have "talks ?P ?w2 w1"
    by (rule talks_mono) auto
  moreover have "talks ?P w ?w2"
    by (rule talks_trans[OF talks_print talks_print]) auto
  ultimately have "talks ?P w w1"
    by (rule talks_trans[rotated])
  then show ?thesis
    by (rule talks_effect) (auto simp: benign_def)
qed

lemma main_iteration_effect:
  assumes "main_iteration fp lib (w :: ('s, 'f, 'd) world) = Some r"
  shows "effect w (world_of r)"
proof -
  obtain c s1 where x: "extract_int lib (cin w) = (c, s1)"
    by (cases "extract_int lib (cin w)")
  let ?P = "\<lambda>m::'d message. m = MainMenu \<or> m = InvalidInput \<or> m = InvalidOption \<or>
              m = Goodbye \<or> m = PressEnter"
  have b: "\<And>m. ?P m \<Longrightarrow> benign m"
    by (auto simp: benign_def)
  let ?w1 = "(print MainMenu w)\<lparr>cin := s1\<rparr>"
  let ?w2 = "clear_input_buffer lib ?w1"
  have t2: "talks ?P w ?w2"
    by (simp add: talks_def print_def clear_input_buffer_def)
  show ?thesis
  proof (cases c)
    case None
    with assms x have "world_of r = pause_screen lib (clear_input_buffer lib (print InvalidInput ?w1))"
      by (auto simp: main_iteration_def display_menu_def cin_int_eq print_simps)
    then have "talks ?P w (world_of r)"
      by (simp add: talks_def print_def clear_input_buffer_def pause_screen_def Let_def)
    then show ?thesis using b by (rule talks_effect)
  next
    case (Some choice)
    with assms x have r: "(if choice = 1 then map_option Continue (enter_calibration_data fp lib ?w2)
             else if choice = 2 then Some (Continue (load_calibration_from_file lib ?w2))
             else if choice = 3 then map_option Continue (convert_raw_reading fp lib ?w2)
             else if choice = 4 then Some (Continue (save_calibration_to_file lib ?w2))
             else if choice = 5 then Some (Return 0 (print Goodbye ?w2))
             else Some (Continue (pause_screen lib (print InvalidOption ?w2)))) = Some r"
      by (simp add: main_iteration_def display_menu_def cin_int_eq Let_def print_simps)
    consider "choice = 1" | "choice = 2" | "choice = 3" | "choice = 4" | "choice = 5"
      | "choice \<noteq> 1 \<and> choice \<noteq> 2 \<and> choice \<noteq> 3 \<and> choice \<noteq> 4 \<and> choice \<noteq> 5"
      by blast
    then have "effect ?w2 (world_of r)"
    proof cases
      case 1
      with r show ?thesis by (auto dest: enter_calibration_data_effect)
    next
      case 2
      with r show ?thesis by (auto simp: load_calibration_from_file_effect)
    next
      case 3
      with r show ?thesis by (auto dest: convert_raw_reading_effect)
    next
      case 4
      with r show ?thesis by (auto simp: save_calibration_to_file_effect)
    next
      case 5
      with r have "world_of r = print Goodbye ?w2" by auto
      then have "talks ?P ?w2 (world_of r)" by (simp add: talks_def print_def)
      then show ?thesis using b by (rule talks_effect)
    next
      case 6
      with r have "world_of r = pause_screen lib (print InvalidOption ?w2)" by auto
      then have "talks ?P ?w2 (world_of r)"
        by (simp add: talks_def print_def pause_screen_def Let_def)
      then show ?thesis using b by (rule talks_effect)
    qed
    with t2 b show ?thesis by (rule talks_then_effect)
  qed
qed




lemma later_keeps_validity:
  assumes "later fp lib w w1" and "is_valid (current_calibration w)"
  shows "is_valid (current_calibration w1) \<and>
    (\<exists>new. cout w1 = cout w @ new \<and> list_all (\<lambda>m. \<not> not_calibrated m) new)"
  using assms
proof (induction rule: later.induct)
  case (now w)
  then show ?case by simp
next
  case (next_turn w w1 w2)
  then obtain pre where p: "is_valid (current_calibration w1)" "cout w1 = cout w @ pre"
    "list_all (\<lambda>m. \<not> not_calibrated m) pre"
    by blast
  from main_iteration_effect[OF next_turn.hyps(2)] p(1) obtain new where
    n: "cout w2 = cout w1 @ new" "list_all (\<lambda>m. \<not> not_calibrated m) new"
      "is_valid (current_calibration w2)"
    unfolding effect_def by auto
  from p n have "cout w2 = cout w @ (pre @ new)"
    "list_all (\<lambda>m. \<not> not_calibrated m) (pre @ new)"
    by simp_all
  with n(3) show ?case by blast
qed

lemma not_calibrated_absent:
  "list_all (\<lambda>m. \<not> not_calibrated m) new \<longleftrightarrow>
   NoCalibrationLoaded \<notin> set new \<and> NoCalibrationToSave \<notin> set new"
proof (induction new)
  case Nil
  show ?case by simp
next
  case (Cons m ms)
  then show ?case by (cases m) auto
qed

text \<open>
  C9. The store is not valid at process start, and validity is never taken back: from a
  state at the menu with a valid store, every state reached at the menu later has a valid
  store, and so has the state at the end of any further turn, be it the last one; and in
  all that the program printed in between, neither "no calibration loaded" nor "no
  calibration to save" occurs.
\<close>

theorem validity_is_monotone:
  "\<not> is_valid (current_calibration (initial_world fp s d)) \<and>
   (later fp lib w w1 \<and> is_valid (current_calibration w) \<longrightarrow>
      is_valid (current_calibration w1) \<and>
      (\<exists>new. cout w1 = cout w @ new \<and>
         NoCalibrationLoaded \<notin> set new \<and> NoCalibrationToSave \<notin> set new) \<and>
      (\<forall>r. main_iteration fp lib w1 = Some r \<longrightarrow>
         is_valid (current_calibration (world_of r)) \<and>
         (\<exists>new. cout (world_of r) = cout w1 @ new \<and>
            NoCalibrationLoaded \<notin> set new \<and> NoCalibrationToSave \<notin> set new)))"
proof -
  have A: "\<not> is_valid (current_calibration (initial_world fp s d))"
    by (simp add: initial_world_def initial_calibration_def print_def)
  have B: "is_valid (current_calibration w1) \<and>
      (\<exists>new. cout w1 = cout w @ new \<and>
         NoCalibrationLoaded \<notin> set new \<and> NoCalibrationToSave \<notin> set new) \<and>
      (\<forall>r. main_iteration fp lib w1 = Some r \<longrightarrow>
         is_valid (current_calibration (world_of r)) \<and>
         (\<exists>new. cout (world_of r) = cout w1 @ new \<and>
            NoCalibrationLoaded \<notin> set new \<and> NoCalibrationToSave \<notin> set new))"
    if a: "later fp lib w w1 \<and> is_valid (current_calibration w)"
  proof -
    from later_keeps_validity[OF conjunct1[OF a] conjunct2[OF a]]
    have k: "is_valid (current_calibration w1)"
      "\<exists>new. cout w1 = cout w @ new \<and> list_all (\<lambda>m. \<not> not_calibrated m) new"
      by blast+
    have t: "is_valid (current_calibration (world_of r)) \<and>
         (\<exists>new. cout (world_of r) = cout w1 @ new \<and>
            NoCalibrationLoaded \<notin> set new \<and> NoCalibrationToSave \<notin> set new)"
      if r: "main_iteration fp lib w1 = Some r" for r
    proof -
      from main_iteration_effect[OF r] k(1) obtain new where
        n: "cout (world_of r) = cout w1 @ new" "list_all (\<lambda>m. \<not> not_calibrated m) new"
          "is_valid (current_calibration (world_of r))"
        unfolding effect_def by auto
      from n show ?thesis
        by (auto simp: not_calibrated_absent)
    qed
    from k(2) have "\<exists>new. cout w1 = cout w @ new \<and>
         NoCalibrationLoaded \<notin> set new \<and> NoCalibrationToSave \<notin> set new"
      by (simp add: not_calibrated_absent)
    with k(1) t show ?thesis by blast
  qed
  show ?thesis
    by (rule conjI[OF A], rule impI) (rule B)
qed

theorem validity_is_monotone_witness:
  "later exact_fp script_lib
     (at_console [TInt 4, TEol, TWord ''out.txt'', TEol, TEol, TInt 5, TEol] [] demo_calibration)
     \<lparr>cin = [TInt 5, TEol],
        cout = [MainMenu, SaveHeader, AskSaveName, SavedCalibration ''out.txt'' 2 1, PressEnter],
        disk = [(''out.txt'', [TWord ''2.0000000000\<newline>'', TWord ''1.0000000000\<newline>''])],
        current_calibration = demo_calibration\<rparr>
   \<and> is_valid (current_calibration (at_console
        [TInt 4, TEol, TWord ''out.txt'', TEol, TEol, TInt 5, TEol] [] demo_calibration))
   \<and> is_valid (current_calibration
       \<lparr>cin = [TInt 5, TEol],
        cout = [MainMenu, SaveHeader, AskSaveName, SavedCalibration ''out.txt'' 2 1, PressEnter],
        disk = [(''out.txt'', [TWord ''2.0000000000\<newline>'', TWord ''1.0000000000\<newline>''])],
        current_calibration = demo_calibration\<rparr>)"
proof -
  let ?w = "at_console [TInt 4, TEol, TWord ''out.txt'', TEol, TEol, TInt 5, TEol] []
              demo_calibration"
  let ?w1 = "\<lparr>cin = [TInt 5, TEol],
        cout = [MainMenu, SaveHeader, AskSaveName, SavedCalibration ''out.txt'' 2 1, PressEnter],
        disk = [(''out.txt'', [TWord ''2.0000000000\<newline>'', TWord ''1.0000000000\<newline>''])],
        current_calibration = demo_calibration\<rparr>"
  have "main_iteration exact_fp script_lib ?w = Some (Continue ?w1)"
    by code_simp
  with later.now have l: "later exact_fp script_lib ?w ?w1"
    by (rule later.next_turn)
  have v: "is_valid (current_calibration ?w)"
    by (simp add: at_console_def demo_calibration_def)
  from validity_is_monotone[THEN conjunct2, THEN mp, OF conjI[OF l v], THEN conjunct1]
  have "is_valid (current_calibration ?w1)" .
  with l v show ?thesis by blast
qed

end
